theory Spec2Isabelle
  imports Main "HOL-Library.Sublist" "HOL-Library.Word"
begin

section \<open>Data model\<close>

text \<open>
  A browser \<open>File\<close> as far as the program reads it: its \<open>name\<close>, its declared media
  type \<open>type\<close>, and the bytes it holds.
\<close>

record File =
  name :: string
  type :: string
  content :: "8 word list"

text \<open>
  The object held by a photo slot (\<open>PhotoState\<close> in \<open>App.tsx\<close> is this object or
  \<open>null\<close>). The field \<open>base64Data\<close> is declared a string, and is filled with
  \<open>base64String.split(',')[1]\<close>, which is \<open>undefined\<close> when the split has a single
  part: \<open>None\<close> stands for that \<open>undefined\<close>.
\<close>

record Photo =
  base64Data :: "string option"
  mimeType :: string

type_synonym PhotoState = "Photo option"

text \<open>The five \<open>useState\<close> cells of \<open>App\<close>; \<open>None\<close> is \<open>null\<close>.\<close>

record AppState =
  childPhoto :: PhotoState
  adultPhoto :: PhotoState
  generatedImage :: "string option"
  isLoading :: bool
  error :: "string option"

text \<open>The initial values given to the five \<open>useState\<close> calls.\<close>

definition initialState :: AppState where
  "initialState =
     \<lparr>childPhoto = None, adultPhoto = None, generatedImage = None,
      isLoading = False, error = None\<rparr>"

text \<open>
  What a \<open>catch\<close> clause receives: an \<open>Error\<close> object with its message, or any
  other value (for which \<open>err instanceof Error\<close> is false).
\<close>

datatype thrown = ErrorObject string | OtherValue

text \<open>How an awaited promise settles.\<close>

datatype 'a settled = Fulfilled 'a | Rejected thrown

text \<open>
  The platform's \<open>FileReader.readAsDataURL\<close>, taken as a parameter: the string left in
  \<open>reader.result\<close> when \<open>onload\<close> fires, or \<open>None\<close> when the read fails and
  \<open>onerror\<close> fires.
\<close>

type_synonym FileReader = "File \<Rightarrow> string option"

text \<open>
  \<open>generateReunificationImage\<close> of \<open>services/geminiService\<close>, taken as a parameter:
  the two photos go in, the promise settles with a base64 string or is rejected.
\<close>

type_synonym GenerationClient = "Photo \<Rightarrow> Photo \<Rightarrow> string settled"

section \<open>JavaScript primitives the program uses\<close>

text \<open>Truthiness of an object-or-null value: every object is truthy, \<open>null\<close> is not.\<close>

definition truthy_object :: "'a option \<Rightarrow> bool" where
  "truthy_object v = (case v of None \<Rightarrow> False | Some _ \<Rightarrow> True)"

text \<open>Truthiness of a string-or-null value: \<open>null\<close> and the empty string are falsy.\<close>

definition truthy_string :: "string option \<Rightarrow> bool" where
  "truthy_string v = (case v of None \<Rightarrow> False | Some s \<Rightarrow> s \<noteq> [])"

text \<open>\<open>s.startsWith(p)\<close>.\<close>

definition startsWith :: "string \<Rightarrow> string \<Rightarrow> bool" where
  "startsWith s p = (take (length p) s = p)"

text \<open>
  \<open>s.split(c)\<close> for a one-character separator: the parts between the separators, in
  order; a string without the separator is the single part.
\<close>

fun split_str :: "char \<Rightarrow> string \<Rightarrow> string list" where
  "split_str c [] = [[]]"
| "split_str c (x # xs) =
     (if x = c then [] # split_str c xs
      else (case split_str c xs of
              [] \<Rightarrow> [[x]]
            | p # ps \<Rightarrow> (x # p) # ps))"

text \<open>\<open>xs[i]\<close> on a JavaScript array: \<open>undefined\<close> (here \<open>None\<close>) out of range.\<close>

fun js_index :: "'a list \<Rightarrow> nat \<Rightarrow> 'a option" where
  "js_index [] i = None"
| "js_index (x # xs) 0 = Some x"
| "js_index (x # xs) (Suc i) = js_index xs i"

section \<open>The application controller (\<open>App.tsx\<close>)\<close>

text \<open>
  \<open>fileToPhotoState\<close>: read the file as a data URL; on \<open>onload\<close> resolve with the part
  after the first comma and the file's declared type; on \<open>onerror\<close> reject with the
  event (which is not an \<open>Error\<close>).
\<close>

definition fileToPhotoState :: "FileReader \<Rightarrow> File \<Rightarrow> Photo settled" where
  "fileToPhotoState reader file =
     (case reader file of
        Some base64String \<Rightarrow>
          Fulfilled \<lparr>base64Data = js_index (split_str CHR '','' base64String) 1,
                     mimeType = type file\<rparr>
      | None \<Rightarrow> Rejected OtherValue)"

text \<open>
  \<open>handleChildPhotoUpload\<close> and \<open>handleAdultPhotoUpload\<close>, run to completion on the
  state current when the read settles.
\<close>

definition handleChildPhotoUpload :: "FileReader \<Rightarrow> File \<Rightarrow> AppState \<Rightarrow> AppState" where
  "handleChildPhotoUpload reader file s =
     (case fileToPhotoState reader file of
        Fulfilled photoState \<Rightarrow> s\<lparr>childPhoto := Some photoState\<rparr>
      | Rejected e \<Rightarrow> s\<lparr>error := Some ''Failed to read child photo.''\<rparr>)"

definition handleAdultPhotoUpload :: "FileReader \<Rightarrow> File \<Rightarrow> AppState \<Rightarrow> AppState" where
  "handleAdultPhotoUpload reader file s =
     (case fileToPhotoState reader file of
        Fulfilled photoState \<Rightarrow> s\<lparr>adultPhoto := Some photoState\<rparr>
      | Rejected e \<Rightarrow> s\<lparr>error := Some ''Failed to read adult photo.''\<rparr>)"

text \<open>
  \<open>handleGenerate\<close> up to its \<open>await\<close>: the guard on the two slots, then the three
  setters. The second component is the request handed to the client, if any.
\<close>

definition handleGenerate_begin :: "AppState \<Rightarrow> AppState \<times> (Photo \<times> Photo) option" where
  "handleGenerate_begin s =
     (case (childPhoto s, adultPhoto s) of
        (Some c, Some a) \<Rightarrow>
          (s\<lparr>isLoading := True, error := None, generatedImage := None\<rparr>, Some (c, a))
      | _ \<Rightarrow>
          (s\<lparr>error := Some ''Please upload both photos before generating.''\<rparr>, None))"

text \<open>
  \<open>handleGenerate\<close> after its \<open>await\<close>: the \<open>try\<close> body on fulfilment, the \<open>catch\<close>
  clause on rejection, and the \<open>finally\<close> clause in both cases, applied to the state
  current when the promise settles.
\<close>

definition handleGenerate_settle :: "string settled \<Rightarrow> AppState \<Rightarrow> AppState" where
  "handleGenerate_settle outcome s =
     (case outcome of
        Fulfilled resultBase64 \<Rightarrow>
          s\<lparr>generatedImage := Some (''data:image/jpeg;base64,'' @ resultBase64),
            isLoading := False\<rparr>
      | Rejected err \<Rightarrow>
          (let errorMessage =
                 (case err of
                    ErrorObject message \<Rightarrow> message
                  | OtherValue \<Rightarrow> ''An unknown error occurred.'')
           in s\<lparr>error := Some (''Failed to generate image: '' @ errorMessage),
                 isLoading := False\<rparr>))"

text \<open>The whole of \<open>handleGenerate\<close>, with nothing else happening during the \<open>await\<close>.\<close>

definition handleGenerate :: "GenerationClient \<Rightarrow> AppState \<Rightarrow> AppState" where
  "handleGenerate client s =
     (case handleGenerate_begin s of
        (s', None) \<Rightarrow> s'
      | (s', Some (c, a)) \<Rightarrow> handleGenerate_settle (client c a) s')"

definition handleStartOver :: "AppState \<Rightarrow> AppState" where
  "handleStartOver s =
     s\<lparr>childPhoto := None, adultPhoto := None, generatedImage := None,
       error := None, isLoading := False\<rparr>"

text \<open>
  \<open>handleDownload\<close> changes no state; its effect is the link it clicks, given here as
  the pair of \<open>href\<close> and \<open>download\<close>.
\<close>

definition handleDownload :: "AppState \<Rightarrow> (string \<times> string) option" where
  "handleDownload s =
     (case generatedImage s of
        None \<Rightarrow> None
      | Some img \<Rightarrow> (if img = [] then None else Some (img, ''rewindpix_reunion.jpeg'')))"

definition isGenerateDisabled :: "AppState \<Rightarrow> bool" where
  "isGenerateDisabled s =
     (\<not> truthy_object (childPhoto s) \<or> \<not> truthy_object (adultPhoto s) \<or> isLoading s)"

text \<open>The two conditional blocks of the render that hold buttons.\<close>

definition rendersUploadScreen :: "AppState \<Rightarrow> bool" where
  "rendersUploadScreen s = (\<not> truthy_string (generatedImage s) \<and> \<not> isLoading s)"

definition rendersResultScreen :: "AppState \<Rightarrow> bool" where
  "rendersResultScreen s = (truthy_string (generatedImage s) \<and> \<not> isLoading s)"

section \<open>A session of the application\<close>

text \<open>
  What can happen to the controller between renders: an upload handler runs to completion
  for a file, a button is clicked, or the pending generation request settles. A click
  reaches its handler only when the button is rendered and not disabled; a settlement
  needs a request in flight.
\<close>

datatype event =
    ChildPhotoUploaded File
  | AdultPhotoUploaded File
  | GenerateClicked
  | GenerationSettled "string settled"
  | StartOverClicked
  | DownloadClicked

record Session =
  app :: AppState
  inFlight :: nat

definition step :: "FileReader \<Rightarrow> event \<Rightarrow> Session \<Rightarrow> Session" where
  "step reader ev \<sigma> =
     (case ev of
        ChildPhotoUploaded file \<Rightarrow> \<sigma>\<lparr>app := handleChildPhotoUpload reader file (app \<sigma>)\<rparr>
      | AdultPhotoUploaded file \<Rightarrow> \<sigma>\<lparr>app := handleAdultPhotoUpload reader file (app \<sigma>)\<rparr>
      | GenerateClicked \<Rightarrow>
          (if rendersUploadScreen (app \<sigma>) \<and> \<not> isGenerateDisabled (app \<sigma>)
           then (case handleGenerate_begin (app \<sigma>) of
                   (s', None) \<Rightarrow> \<sigma>\<lparr>app := s'\<rparr>
                 | (s', Some request) \<Rightarrow> \<lparr>app = s', inFlight = Suc (inFlight \<sigma>)\<rparr>)
           else \<sigma>)
      | GenerationSettled outcome \<Rightarrow>
          (case inFlight \<sigma> of
             0 \<Rightarrow> \<sigma>
           | Suc n \<Rightarrow> \<lparr>app = handleGenerate_settle outcome (app \<sigma>), inFlight = n\<rparr>)
      | StartOverClicked \<Rightarrow>
          (if rendersResultScreen (app \<sigma>) then \<sigma>\<lparr>app := handleStartOver (app \<sigma>)\<rparr> else \<sigma>)
      | DownloadClicked \<Rightarrow> \<sigma>)"

definition run :: "FileReader \<Rightarrow> event list \<Rightarrow> Session" where
  "run reader evs = foldl (\<lambda>\<sigma> ev. step reader ev \<sigma>) \<lparr>app = initialState, inFlight = 0\<rparr> evs"

section \<open>The capture component (\<open>ImageUploader.tsx\<close>)\<close>

record UploaderState =
  imagePreview :: "string option"
  fileName :: string

text \<open>
  What \<open>handleFileChange\<close> does besides setting its own state: it shows an alert,
  starts a read of the file for the preview, or calls the \<open>onImageUpload\<close> prop.
\<close>

datatype effect = Alert string | ReadPreview File | OnImageUpload File

text \<open>
  \<open>handleFileChange\<close>; the first argument is \<open>event.target.files?.[0]\<close>. The preview
  is set later, when the read ends.
\<close>

definition handleFileChange :: "File option \<Rightarrow> UploaderState \<Rightarrow> UploaderState \<times> effect list" where
  "handleFileChange files0 u =
     (case files0 of
        None \<Rightarrow> (u, [])
      | Some file \<Rightarrow>
          (if startsWith (type file) ''image/''
           then (u\<lparr>fileName := name file\<rparr>, [ReadPreview file, OnImageUpload file])
           else (u, [Alert ''Please select a valid image file.''])))"

text \<open>
  The \<open>accept\<close> attribute of the file input; it filters the picker's dialog and
  nothing else, and a dropped file does not pass through it.
\<close>

definition acceptedTypes :: "string list" where
  "acceptedTypes = [''image/png'', ''image/jpeg'', ''image/webp'']"

text \<open>\<open>reader.onloadend\<close> of the preview read; \<open>reader.result\<close> is \<open>null\<close> after a failure.\<close>

definition onloadend :: "string option \<Rightarrow> UploaderState \<Rightarrow> UploaderState" where
  "onloadend result u = u\<lparr>imagePreview := result\<rparr>"

text \<open>
  One uploader mounted in the application, as \<open>App\<close> renders it: the slot decides which
  upload handler is its \<open>onImageUpload\<close>. A submission is followed here to the end of
  the reads it starts; the third component collects the alerts shown.
\<close>

datatype slot = ChildSlot | AdultSlot

definition perform ::
  "FileReader \<Rightarrow> slot \<Rightarrow> UploaderState \<times> AppState \<times> string list \<Rightarrow> effect
     \<Rightarrow> UploaderState \<times> AppState \<times> string list" where
  "perform reader sl st eff =
     (case st of (u, s, alerts) \<Rightarrow>
        (case eff of
           Alert msg \<Rightarrow> (u, s, alerts @ [msg])
         | ReadPreview file \<Rightarrow> (onloadend (reader file) u, s, alerts)
         | OnImageUpload file \<Rightarrow>
             (u,
              (case sl of
                 ChildSlot \<Rightarrow> handleChildPhotoUpload reader file s
               | AdultSlot \<Rightarrow> handleAdultPhotoUpload reader file s),
              alerts)))"

definition submitFile ::
  "FileReader \<Rightarrow> slot \<Rightarrow> File option \<Rightarrow> UploaderState \<times> AppState \<times> string list
     \<Rightarrow> UploaderState \<times> AppState \<times> string list" where
  "submitFile reader sl files0 st =
     (case st of (u, s, alerts) \<Rightarrow>
        (case handleFileChange files0 u of
           (u', effs) \<Rightarrow> foldl (perform reader sl) (u', s, alerts) effs))"

section \<open>The platform's data URLs\<close>

text \<open>
  \<open>readAsDataURL\<close> yields \<open>data:\<close>, the file's type, \<open>;base64,\<close> and the base64
  encoding of the file's bytes (File API, RFC 2397). Base64 is that of RFC 4648,
  section 4: three bytes become four characters of the alphabet, and a last group of one
  or two bytes is padded with \<open>=\<close>.
\<close>

definition base64_alphabet :: string where
  "base64_alphabet = ''ABCDEFGHIJKLMNOPQRSTUVWXYZabcdefghijklmnopqrstuvwxyz0123456789+/''"

definition base64_char :: "nat \<Rightarrow> char" where
  "base64_char n = base64_alphabet ! (n mod 64)"

fun index_of :: "'a \<Rightarrow> 'a list \<Rightarrow> nat option" where
  "index_of x [] = None"
| "index_of x (y # ys) = (if x = y then Some 0 else map_option Suc (index_of x ys))"

definition base64_value :: "char \<Rightarrow> nat option" where
  "base64_value c = index_of c base64_alphabet"

fun base64_encode :: "8 word list \<Rightarrow> string" where
  "base64_encode [] = []"
| "base64_encode [a] =
     [base64_char (unat a div 4), base64_char (unat a mod 4 * 16), CHR ''='', CHR ''='']"
| "base64_encode [a, b] =
     [base64_char (unat a div 4), base64_char (unat a mod 4 * 16 + unat b div 16),
      base64_char (unat b mod 16 * 4), CHR ''='']"
| "base64_encode (a # b # c # rest) =
     [base64_char (unat a div 4), base64_char (unat a mod 4 * 16 + unat b div 16),
      base64_char (unat b mod 16 * 4 + unat c div 64), base64_char (unat c mod 64)]
     @ base64_encode rest"

text \<open>
  Decoding, four characters at a time; padding is accepted in the last group only, and a
  character outside the alphabet or a length that is not a multiple of four is refused.
\<close>

fun base64_decode :: "string \<Rightarrow> 8 word list option" where
  "base64_decode [] = Some []"
| "base64_decode (w # x # y # z # rest) =
     (case (base64_value w, base64_value x) of
        (Some p, Some q) \<Rightarrow>
          (if y = CHR ''='' \<and> z = CHR ''='' \<and> rest = []
           then Some [of_nat (p * 4 + q div 16)]
           else (case base64_value y of
                   None \<Rightarrow> None
                 | Some r \<Rightarrow>
                     (if z = CHR ''='' \<and> rest = []
                      then Some [of_nat (p * 4 + q div 16), of_nat (q mod 16 * 16 + r div 4)]
                      else (case base64_value z of
                              None \<Rightarrow> None
                            | Some t \<Rightarrow>
                                map_option
                                  (\<lambda>bytes. of_nat (p * 4 + q div 16)
                                            # of_nat (q mod 16 * 16 + r div 4)
                                            # of_nat (r mod 4 * 64 + t) # bytes)
                                  (base64_decode rest)))))
      | _ \<Rightarrow> None)"
| "base64_decode _ = None"

definition dataURL :: "File \<Rightarrow> string" where
  "dataURL file = ''data:'' @ type file @ '';base64,'' @ base64_encode (content file)"

text \<open>A reader whose reads succeed.\<close>

definition readAsDataURL :: FileReader where
  "readAsDataURL file = Some (dataURL file)"

section \<open>Base64 and data URLs: auxiliary facts\<close>

lemma base64_alphabet_distinct: "distinct base64_alphabet"
  by (simp add: base64_alphabet_def)

lemma index_of_nth: "distinct xs \<Longrightarrow> n < length xs \<Longrightarrow> index_of (xs ! n) xs = Some n"
proof (induction xs arbitrary: n)
  case Nil then show ?case by simp
next
  case (Cons a xs)
  then show ?case by (cases n) auto
qed

lemma base64_value_char: "n < 64 \<Longrightarrow> base64_value (base64_char n) = Some n"
  unfolding base64_value_def base64_char_def
  using index_of_nth[OF base64_alphabet_distinct, of n] by (simp add: base64_alphabet_def)

lemma base64_char_in_alphabet: "base64_char n \<in> set base64_alphabet"
  unfolding base64_char_def by (rule nth_mem) (simp add: base64_alphabet_def)

lemma base64_char_not_pad: "base64_char n \<noteq> CHR ''=''"
  using base64_char_in_alphabet[of n] by (auto simp: base64_alphabet_def)

lemma of_nat_unat_byte: "(of_nat (unat a) :: 8 word) = a"
  by simp

lemma unat_byte: "unat (a :: 8 word) < 256"
  using unsigned_less[of a] by simp


lemma sextets_one:
  fixes A :: nat
  shows "A div 4 * 4 + A mod 4 * 16 div 16 = A"
  by simp

lemma sextets_first:
  fixes A B :: nat
  assumes "B < 256"
  shows "A div 4 * 4 + (A mod 4 * 16 + B div 16) div 16 = A"
proof -
  have "B div 16 < 16" using assms by simp
  then have "(A mod 4 * 16 + B div 16) div 16 = A mod 4" by simp
  then show ?thesis by simp
qed

lemma sextets_second_last:
  fixes A B :: nat
  assumes "B < 256"
  shows "(A mod 4 * 16 + B div 16) mod 16 * 16 + B mod 16 * 4 div 4 = B"
proof -
  have "B div 16 < 16" using assms by simp
  then have "(A mod 4 * 16 + B div 16) mod 16 = B div 16" by simp
  then show ?thesis by simp
qed

lemma sextets_second:
  fixes A B C :: nat
  assumes "B < 256" "C < 256"
  shows "(A mod 4 * 16 + B div 16) mod 16 * 16 + (B mod 16 * 4 + C div 64) div 4 = B"
proof -
  have "B div 16 < 16" using assms by simp
  then have 1: "(A mod 4 * 16 + B div 16) mod 16 = B div 16" by simp
  have "C div 64 < 4" using assms by simp
  then have 2: "(B mod 16 * 4 + C div 64) div 4 = B mod 16" by simp
  show ?thesis unfolding 1 2 by simp
qed

lemma sextets_third:
  fixes B C :: nat
  assumes "C < 256"
  shows "(B mod 16 * 4 + C div 64) mod 4 * 64 + C mod 64 = C"
proof -
  have "C div 64 < 4" using assms by simp
  then have "(B mod 16 * 4 + C div 64) mod 4 = C div 64" by simp
  then show ?thesis by simp
qed

lemma sextet_bounds:
  fixes A B :: nat
  assumes "A < 256" "B < 256"
  shows "A div 4 < 64" and "A mod 4 * 16 < 64" and "A mod 4 * 16 + B div 16 < 64"
    and "B mod 16 * 4 < 64" and "A mod 16 * 4 + B div 64 < 64" and "B mod 64 < 64"
proof -
  have a4: "A mod 4 < 4" and a16: "A mod 16 < 16" and b16: "B mod 16 < 16" by simp_all
  have bd16: "B div 16 < 16" and bd64: "B div 64 < 4" using assms by simp_all
  show "A div 4 < 64" using assms by simp
  show "A mod 4 * 16 < 64" using a4 by linarith
  show "A mod 4 * 16 + B div 16 < 64" using a4 bd16 by linarith
  show "B mod 16 * 4 < 64" using b16 by linarith
  show "A mod 16 * 4 + B div 64 < 64" using a16 bd64 by linarith
  show "B mod 64 < 64" by simp
qed


lemma sextet_values:
  fixes a b :: "8 word"
  shows "base64_value (base64_char (unat a div 4)) = Some (unat a div 4)"
    and "base64_value (base64_char (unat a mod 4 * 16)) = Some (unat a mod 4 * 16)"
    and "base64_value (base64_char (unat a mod 4 * 16 + unat b div 16))
           = Some (unat a mod 4 * 16 + unat b div 16)"
    and "base64_value (base64_char (unat b mod 16 * 4)) = Some (unat b mod 16 * 4)"
    and "base64_value (base64_char (unat a mod 16 * 4 + unat b div 64))
           = Some (unat a mod 16 * 4 + unat b div 64)"
    and "base64_value (base64_char (unat b mod 64)) = Some (unat b mod 64)"
  by (rule base64_value_char; rule sextet_bounds; rule unat_byte)+

lemma decode_group3:
  fixes a b c :: "8 word"
  assumes "base64_decode rest = Some bs"
  shows "base64_decode
           (base64_char (unat a div 4) # base64_char (unat a mod 4 * 16 + unat b div 16)
            # base64_char (unat b mod 16 * 4 + unat c div 64) # base64_char (unat c mod 64)
            # rest) = Some (a # b # c # bs)"
proof -
  have 1: "unat a div 4 * 4 + (unat a mod 4 * 16 + unat b div 16) div 16 = unat a"
    by (rule sextets_first[OF unat_byte])
  have 2: "(unat a mod 4 * 16 + unat b div 16) mod 16 * 16
             + (unat b mod 16 * 4 + unat c div 64) div 4 = unat b"
    by (rule sextets_second[OF unat_byte unat_byte])
  have 3: "(unat b mod 16 * 4 + unat c div 64) mod 4 * 64 + unat c mod 64 = unat c"
    by (rule sextets_third[OF unat_byte])
  show ?thesis
    unfolding base64_decode.simps sextet_values
    by (simp only: 1 2 3 assms base64_char_not_pad option.case prod.case if_False
        simp_thms option.map of_nat_unat_byte)
qed

lemma decode_group2:
  fixes a b :: "8 word"
  shows "base64_decode
           [base64_char (unat a div 4), base64_char (unat a mod 4 * 16 + unat b div 16),
            base64_char (unat b mod 16 * 4), CHR ''=''] = Some [a, b]"
proof -
  have 1: "unat a div 4 * 4 + (unat a mod 4 * 16 + unat b div 16) div 16 = unat a"
    by (rule sextets_first[OF unat_byte])
  have 2: "(unat a mod 4 * 16 + unat b div 16) mod 16 * 16 + unat b mod 16 * 4 div 4 = unat b"
    by (rule sextets_second_last[OF unat_byte])
  show ?thesis
    unfolding base64_decode.simps sextet_values
    by (simp only: 1 2 base64_char_not_pad option.case prod.case if_False if_True
        simp_thms of_nat_unat_byte)
qed

lemma decode_group1:
  fixes a :: "8 word"
  shows "base64_decode
           [base64_char (unat a div 4), base64_char (unat a mod 4 * 16), CHR ''='', CHR ''='']
         = Some [a]"
proof -
  have 1: "unat a div 4 * 4 + unat a mod 4 * 16 div 16 = unat a"
    by (rule sextets_one)
  show ?thesis
    unfolding base64_decode.simps sextet_values
    by (simp only: 1 option.case prod.case if_True simp_thms of_nat_unat_byte)
qed

lemma base64_roundtrip: "base64_decode (base64_encode bytes) = Some bytes"
proof (induction bytes rule: base64_encode.induct)
  case 1
  show ?case by simp
next
  case (2 a)
  show ?case using decode_group1 by simp
next
  case (3 a b)
  show ?case using decode_group2 by simp
next
  case (4 a b c rest)
  show ?case using decode_group3[OF "4.IH"] by simp
qed

lemma base64_encode_chars:
  "set (base64_encode bytes) \<subseteq> insert CHR ''='' (set base64_alphabet)"
  by (induction bytes rule: base64_encode.induct) (simp_all add: base64_char_in_alphabet)

lemma base64_encode_no_comma: "CHR '','' \<notin> set (base64_encode bytes)"
  using base64_encode_chars[of bytes] by (auto simp: base64_alphabet_def)

lemma base64_encode_no_colon: "CHR '':'' \<notin> set (base64_encode bytes)"
  using base64_encode_chars[of bytes] by (auto simp: base64_alphabet_def)

lemma split_str_no_sep: "c \<notin> set xs \<Longrightarrow> split_str c xs = [xs]"
  by (induction xs) auto

lemma split_str_first: "c \<notin> set p \<Longrightarrow> split_str c (p @ c # rest) = p # split_str c rest"
  by (induction p) auto

lemma split_dataURL:
  assumes "CHR '','' \<notin> set ty" "CHR '','' \<notin> set payload"
  shows "js_index (split_str CHR '','' (''data:'' @ ty @ '';base64,'' @ payload)) 1 = Some payload"
proof -
  have "''data:'' @ ty @ '';base64,'' @ payload = (''data:'' @ ty @ '';base64'') @ CHR '','' # payload"
    by simp
  moreover have "CHR '','' \<notin> set (''data:'' @ ty @ '';base64'')" using assms(1) by simp
  ultimately have "split_str CHR '','' (''data:'' @ ty @ '';base64,'' @ payload)
      = (''data:'' @ ty @ '';base64'') # split_str CHR '','' payload"
    using split_str_first by metis
  then show ?thesis using split_str_no_sep[OF assms(2)] by (simp add: numeral_eq_Suc)
qed

lemma no_colon_no_prefix: "CHR '':'' \<notin> set s \<Longrightarrow> \<not> startsWith s ''data:''"
proof
  assume a: "CHR '':'' \<notin> set s" and sw: "startsWith s ''data:''"
  have "set ''data:'' \<subseteq> set s"
    using set_take_subset[of "length ''data:''" s] by (simp only: sw[unfolded startsWith_def])
  then show False using a by simp
qed

lemma fileToPhotoState_dataURL:
  assumes "reader file = Some (dataURL file)" and "CHR '','' \<notin> set (type file)"
  shows "fileToPhotoState reader file
           = Fulfilled \<lparr>base64Data = Some (base64_encode (content file)), mimeType = type file\<rparr>"
  using assms split_dataURL[OF assms(2) base64_encode_no_comma, of "content file"]
  by (simp add: fileToPhotoState_def dataURL_def)

text \<open>The uploader calls \<open>onImageUpload\<close> only behind its check of the declared type.\<close>

lemma callback_only_for_images:
  assumes "OnImageUpload file \<in> set (snd (handleFileChange files0 u))"
  shows "files0 = Some file \<and> startsWith (type file) ''image/''"
  using assms
  by (cases files0) (auto simp: handleFileChange_def split: if_splits)

text \<open>Evaluations used by the examples below.\<close>

lemma png_encoded:
  "fileToPhotoState readAsDataURL
      \<lparr>name = ''child.png'', type = ''image/png'', content = [0x4d, 0x61, 0x6e]\<rparr>
     = Fulfilled \<lparr>base64Data = Some ''TWFu'', mimeType = ''image/png''\<rparr>"
  by code_simp

lemma png_submitted:
  "childPhoto (fst (snd (submitFile readAsDataURL ChildSlot
      (Some \<lparr>name = ''child.png'', type = ''image/png'', content = [0x4d, 0x61, 0x6e]\<rparr>)
      (\<lparr>imagePreview = None, fileName = ''''\<rparr>, initialState, []))))
   = Some \<lparr>base64Data = Some ''TWFu'', mimeType = ''image/png''\<rparr>"
  by code_simp

lemma gif_submitted:
  "childPhoto (fst (snd (submitFile readAsDataURL ChildSlot
      (Some \<lparr>name = ''anim.gif'', type = ''image/gif'', content = [0x47, 0x49, 0x46]\<rparr>)
      (\<lparr>imagePreview = None, fileName = ''''\<rparr>, initialState, []))))
   = Some \<lparr>base64Data = Some ''R0lG'', mimeType = ''image/gif''\<rparr>"
  by code_simp

section \<open>The session: auxiliary facts\<close>

lemma upload_keeps_loading_result:
  "isLoading (handleChildPhotoUpload reader file s) = isLoading s"
  "generatedImage (handleChildPhotoUpload reader file s) = generatedImage s"
  "isLoading (handleAdultPhotoUpload reader file s) = isLoading s"
  "generatedImage (handleAdultPhotoUpload reader file s) = generatedImage s"
  by (simp_all add: handleChildPhotoUpload_def handleAdultPhotoUpload_def split: settled.splits)

lemma begin_not_both:
  "\<not> (isLoading (fst (handleGenerate_begin s)) \<and> truthy_string (generatedImage (fst (handleGenerate_begin s))))
   \<or> (isLoading (fst (handleGenerate_begin s)) = isLoading s
       \<and> generatedImage (fst (handleGenerate_begin s)) = generatedImage s)"
  by (simp add: handleGenerate_begin_def truthy_string_def split: option.splits)

lemma settle_not_loading: "\<not> isLoading (handleGenerate_settle outcome s)"
  by (simp add: handleGenerate_settle_def Let_def split: settled.splits)

lemma start_over_not_loading: "\<not> isLoading (handleStartOver s)"
  by (simp add: handleStartOver_def)

lemma step_steady:
  assumes "\<not> (isLoading (app \<sigma>) \<and> truthy_string (generatedImage (app \<sigma>)))"
  shows "\<not> (isLoading (app (step reader ev \<sigma>)) \<and> truthy_string (generatedImage (app (step reader ev \<sigma>))))"
proof (cases ev)
  case (ChildPhotoUploaded f)
  then show ?thesis using assms by (simp add: step_def upload_keeps_loading_result)
next
  case (AdultPhotoUploaded f)
  then show ?thesis using assms by (simp add: step_def upload_keeps_loading_result)
next
  case GenerateClicked
  then show ?thesis using assms begin_not_both[of "app \<sigma>"]
    by (cases "handleGenerate_begin (app \<sigma>)") (auto simp: step_def split: option.splits)
next
  case (GenerationSettled outcome)
  then show ?thesis using assms
    by (simp add: step_def settle_not_loading split: nat.splits)
next
  case StartOverClicked
  then show ?thesis using assms by (simp add: step_def start_over_not_loading)
next
  case DownloadClicked
  then show ?thesis using assms by (simp add: step_def)
qed

lemma foldl_step_steady:
  "\<not> (isLoading (app \<sigma>) \<and> truthy_string (generatedImage (app \<sigma>))) \<Longrightarrow>
   \<not> (isLoading (app (foldl (\<lambda>\<sigma> ev. step reader ev \<sigma>) \<sigma> evs))
      \<and> truthy_string (generatedImage (app (foldl (\<lambda>\<sigma> ev. step reader ev \<sigma>) \<sigma> evs))))"
proof (induction evs arbitrary: \<sigma>)
  case Nil
  then show ?case by simp
next
  case (Cons ev evs)
  show ?case using Cons.IH[OF step_steady[OF Cons.prems]] by simp
qed

section \<open>Properties of the controller\<close>

text \<open>
  C1. For every application state, the "Generate Reunion" button is disabled exactly when
  \<open>childPhoto\<close> is absent, or \<open>adultPhoto\<close> is absent, or \<open>isLoading\<close> is true; it is
  enabled exactly in the remaining combination, both slots filled and not loading.
\<close>

theorem generate_disabled_iff:
  "(isGenerateDisabled s \<longleftrightarrow> childPhoto s = None \<or> adultPhoto s = None \<or> isLoading s)
   \<and> (\<not> isGenerateDisabled s \<longleftrightarrow>
        (\<exists>c a. childPhoto s = Some c \<and> adultPhoto s = Some a) \<and> \<not> isLoading s)"
  by (cases "childPhoto s"; cases "adultPhoto s")
     (simp_all add: isGenerateDisabled_def truthy_object_def)

theorem generate_disabled_iff_witness:
  "\<not> isGenerateDisabled
      \<lparr>childPhoto = Some \<lparr>base64Data = Some ''QQ=='', mimeType = ''image/png''\<rparr>,
       adultPhoto = Some \<lparr>base64Data = Some ''Qg=='', mimeType = ''image/jpeg''\<rparr>,
       generatedImage = None, isLoading = False, error = None\<rparr>
   \<and> isGenerateDisabled
      \<lparr>childPhoto = Some \<lparr>base64Data = Some ''QQ=='', mimeType = ''image/png''\<rparr>,
       adultPhoto = Some \<lparr>base64Data = Some ''Qg=='', mimeType = ''image/jpeg''\<rparr>,
       generatedImage = None, isLoading = True, error = None\<rparr>
   \<and> isGenerateDisabled initialState"
  using generate_disabled_iff
          [of "\<lparr>childPhoto = Some \<lparr>base64Data = Some ''QQ=='', mimeType = ''image/png''\<rparr>,
                adultPhoto = Some \<lparr>base64Data = Some ''Qg=='', mimeType = ''image/jpeg''\<rparr>,
                generatedImage = None, isLoading = False, error = None\<rparr>"]
        generate_disabled_iff
          [of "\<lparr>childPhoto = Some \<lparr>base64Data = Some ''QQ=='', mimeType = ''image/png''\<rparr>,
                adultPhoto = Some \<lparr>base64Data = Some ''Qg=='', mimeType = ''image/jpeg''\<rparr>,
                generatedImage = None, isLoading = True, error = None\<rparr>"]
        generate_disabled_iff [of initialState]
  by (simp add: initialState_def)

text \<open>
  C2. In every state with both \<open>childPhoto\<close> and \<open>adultPhoto\<close> present, the synchronous
  part of \<open>handleGenerate\<close> (up to the call of the client) leaves \<open>isLoading\<close> true,
  \<open>error\<close> null and \<open>generatedImage\<close> null, whatever they were before, and leaves the
  two photo slots as they were.
\<close>

theorem generate_begin_loading:
  assumes "childPhoto s \<noteq> None" and "adultPhoto s \<noteq> None"
  shows "fst (handleGenerate_begin s)
           = s\<lparr>isLoading := True, error := None, generatedImage := None\<rparr>
         \<and> isLoading (fst (handleGenerate_begin s))
         \<and> error (fst (handleGenerate_begin s)) = None
         \<and> generatedImage (fst (handleGenerate_begin s)) = None
         \<and> childPhoto (fst (handleGenerate_begin s)) = childPhoto s
         \<and> adultPhoto (fst (handleGenerate_begin s)) = adultPhoto s"
  using assms by (auto simp: handleGenerate_begin_def)

theorem generate_begin_loading_witness:
  "fst (handleGenerate_begin
      \<lparr>childPhoto = Some \<lparr>base64Data = Some ''QQ=='', mimeType = ''image/png''\<rparr>,
       adultPhoto = Some \<lparr>base64Data = Some ''Qg=='', mimeType = ''image/jpeg''\<rparr>,
       generatedImage = Some ''data:image/jpeg;base64,AAAA'', isLoading = False,
       error = Some ''Failed to generate image: timeout''\<rparr>)
   = \<lparr>childPhoto = Some \<lparr>base64Data = Some ''QQ=='', mimeType = ''image/png''\<rparr>,
      adultPhoto = Some \<lparr>base64Data = Some ''Qg=='', mimeType = ''image/jpeg''\<rparr>,
      generatedImage = None, isLoading = True, error = None\<rparr>"
  using generate_begin_loading
          [of "\<lparr>childPhoto = Some \<lparr>base64Data = Some ''QQ=='', mimeType = ''image/png''\<rparr>,
                adultPhoto = Some \<lparr>base64Data = Some ''Qg=='', mimeType = ''image/jpeg''\<rparr>,
                generatedImage = Some ''data:image/jpeg;base64,AAAA'', isLoading = False,
                error = Some ''Failed to generate image: timeout''\<rparr>"]
  by simp

text \<open>
  C3. If both slots are filled and the client fulfils with the base64 string \<open>S\<close>, the
  state after \<open>handleGenerate\<close> has \<open>generatedImage\<close> equal to
  \<open>"data:image/jpeg;base64,"\<close> followed by \<open>S\<close>, and \<open>isLoading\<close> false. The same holds
  of the continuation alone, on whatever state \<open>s'\<close> it resumes.
\<close>

theorem generate_success:
  assumes "childPhoto s = Some c" and "adultPhoto s = Some a"
    and "client c a = Fulfilled S"
  shows "generatedImage (handleGenerate client s) = Some (''data:image/jpeg;base64,'' @ S)
         \<and> isLoading (handleGenerate client s) = False
         \<and> generatedImage (handleGenerate_settle (Fulfilled S) s')
             = Some (''data:image/jpeg;base64,'' @ S)
         \<and> isLoading (handleGenerate_settle (Fulfilled S) s') = False"
  using assms
  by (simp add: handleGenerate_def handleGenerate_begin_def handleGenerate_settle_def)

theorem generate_success_witness:
  "generatedImage (handleGenerate (\<lambda>c a. Fulfilled ''abc123=='')
      \<lparr>childPhoto = Some \<lparr>base64Data = Some ''QQ=='', mimeType = ''image/png''\<rparr>,
       adultPhoto = Some \<lparr>base64Data = Some ''Qg=='', mimeType = ''image/jpeg''\<rparr>,
       generatedImage = None, isLoading = False, error = None\<rparr>)
     = Some ''data:image/jpeg;base64,abc123==''
   \<and> isLoading (handleGenerate (\<lambda>c a. Fulfilled ''abc123=='')
      \<lparr>childPhoto = Some \<lparr>base64Data = Some ''QQ=='', mimeType = ''image/png''\<rparr>,
       adultPhoto = Some \<lparr>base64Data = Some ''Qg=='', mimeType = ''image/jpeg''\<rparr>,
       generatedImage = None, isLoading = False, error = None\<rparr>) = False"
  using generate_success
          [of "\<lparr>childPhoto = Some \<lparr>base64Data = Some ''QQ=='', mimeType = ''image/png''\<rparr>,
                adultPhoto = Some \<lparr>base64Data = Some ''Qg=='', mimeType = ''image/jpeg''\<rparr>,
                generatedImage = None, isLoading = False, error = None\<rparr>"
              "\<lparr>base64Data = Some ''QQ=='', mimeType = ''image/png''\<rparr>"
              "\<lparr>base64Data = Some ''Qg=='', mimeType = ''image/jpeg''\<rparr>"
              "\<lambda>c a. Fulfilled ''abc123==''" "''abc123==''" initialState]
  by simp

text \<open>
  C4. If both slots are filled and the client rejects with an \<open>Error\<close> of message \<open>M\<close>,
  the state after \<open>handleGenerate\<close> has an \<open>error\<close> string that contains \<open>M\<close> (it is
  \<open>"Failed to generate image: "\<close> followed by \<open>M\<close>), \<open>isLoading\<close> false and
  \<open>generatedImage\<close> null.
\<close>

theorem generate_failure:
  assumes "childPhoto s = Some c" and "adultPhoto s = Some a"
    and "client c a = Rejected (ErrorObject M)"
  shows "(\<exists>e. error (handleGenerate client s) = Some e \<and> sublist M e)
         \<and> error (handleGenerate client s) = Some (''Failed to generate image: '' @ M)
         \<and> isLoading (handleGenerate client s) = False
         \<and> generatedImage (handleGenerate client s) = None"
proof -
  have e: "error (handleGenerate client s) = Some (''Failed to generate image: '' @ M)"
    and l: "isLoading (handleGenerate client s) = False"
    and g: "generatedImage (handleGenerate client s) = None"
    using assms
    by (simp_all add: handleGenerate_def handleGenerate_begin_def handleGenerate_settle_def)
  have "sublist M (''Failed to generate image: '' @ M @ [])"
    by (rule sublist_appendI)
  then have "sublist M (''Failed to generate image: '' @ M)" by simp
  with e l g show ?thesis by blast
qed

theorem generate_failure_witness:
  "error (handleGenerate (\<lambda>c a. Rejected (ErrorObject ''quota exceeded''))
      \<lparr>childPhoto = Some \<lparr>base64Data = Some ''QQ=='', mimeType = ''image/png''\<rparr>,
       adultPhoto = Some \<lparr>base64Data = Some ''Qg=='', mimeType = ''image/jpeg''\<rparr>,
       generatedImage = None, isLoading = False, error = None\<rparr>)
     = Some ''Failed to generate image: quota exceeded''
   \<and> sublist ''quota exceeded'' ''Failed to generate image: quota exceeded''
   \<and> generatedImage (handleGenerate (\<lambda>c a. Rejected (ErrorObject ''quota exceeded''))
      \<lparr>childPhoto = Some \<lparr>base64Data = Some ''QQ=='', mimeType = ''image/png''\<rparr>,
       adultPhoto = Some \<lparr>base64Data = Some ''Qg=='', mimeType = ''image/jpeg''\<rparr>,
       generatedImage = None, isLoading = False, error = None\<rparr>) = None"
  using generate_failure
          [of "\<lparr>childPhoto = Some \<lparr>base64Data = Some ''QQ=='', mimeType = ''image/png''\<rparr>,
                adultPhoto = Some \<lparr>base64Data = Some ''Qg=='', mimeType = ''image/jpeg''\<rparr>,
                generatedImage = None, isLoading = False, error = None\<rparr>"
              "\<lparr>base64Data = Some ''QQ=='', mimeType = ''image/png''\<rparr>"
              "\<lparr>base64Data = Some ''Qg=='', mimeType = ''image/jpeg''\<rparr>"
              "\<lambda>c a. Rejected (ErrorObject ''quota exceeded'')" "''quota exceeded''"]
  by auto

text \<open>
  C5. From every application state, \<open>handleStartOver\<close> yields the initial state:
  both slots, the result and the error null, and \<open>isLoading\<close> false.
\<close>

theorem start_over_initial:
  "handleStartOver s = initialState"
  by (simp add: handleStartOver_def initialState_def)

theorem start_over_initial_witness:
  "handleStartOver
      \<lparr>childPhoto = Some \<lparr>base64Data = Some ''QQ=='', mimeType = ''image/png''\<rparr>,
       adultPhoto = Some \<lparr>base64Data = Some ''Qg=='', mimeType = ''image/jpeg''\<rparr>,
       generatedImage = Some ''data:image/jpeg;base64,abc123=='', isLoading = False,
       error = None\<rparr>
   = \<lparr>childPhoto = None, adultPhoto = None, generatedImage = None, isLoading = False,
      error = None\<rparr>"
  using start_over_initial
          [of "\<lparr>childPhoto = Some \<lparr>base64Data = Some ''QQ=='', mimeType = ''image/png''\<rparr>,
                adultPhoto = Some \<lparr>base64Data = Some ''Qg=='', mimeType = ''image/jpeg''\<rparr>,
                generatedImage = Some ''data:image/jpeg;base64,abc123=='', isLoading = False,
                error = None\<rparr>"]
  by (simp add: initialState_def)

text \<open>
  C10. If \<open>handleGenerate\<close> runs while \<open>childPhoto\<close> or \<open>adultPhoto\<close> is absent, it sets
  the error \<open>"Please upload both photos before generating."\<close>, issues no request, and
  returns with \<open>isLoading\<close>, \<open>childPhoto\<close>, \<open>adultPhoto\<close> and \<open>generatedImage\<close> as they
  were.
\<close>

theorem generate_guard:
  assumes "childPhoto s = None \<or> adultPhoto s = None"
  shows "handleGenerate_begin s
           = (s\<lparr>error := Some ''Please upload both photos before generating.''\<rparr>, None)
         \<and> handleGenerate client s
             = s\<lparr>error := Some ''Please upload both photos before generating.''\<rparr>
         \<and> isLoading (handleGenerate client s) = isLoading s
         \<and> childPhoto (handleGenerate client s) = childPhoto s
         \<and> adultPhoto (handleGenerate client s) = adultPhoto s
         \<and> generatedImage (handleGenerate client s) = generatedImage s"
  using assms
  by (auto simp: handleGenerate_def handleGenerate_begin_def split: option.splits)

theorem generate_guard_witness:
  "handleGenerate (\<lambda>c a. Fulfilled ''abc123=='')
      \<lparr>childPhoto = Some \<lparr>base64Data = Some ''QQ=='', mimeType = ''image/png''\<rparr>,
       adultPhoto = None, generatedImage = None, isLoading = False, error = None\<rparr>
   = \<lparr>childPhoto = Some \<lparr>base64Data = Some ''QQ=='', mimeType = ''image/png''\<rparr>,
      adultPhoto = None, generatedImage = None, isLoading = False,
      error = Some ''Please upload both photos before generating.''\<rparr>"
  using generate_guard
          [of "\<lparr>childPhoto = Some \<lparr>base64Data = Some ''QQ=='', mimeType = ''image/png''\<rparr>,
                adultPhoto = None, generatedImage = None, isLoading = False, error = None\<rparr>"
              "\<lambda>c a. Fulfilled ''abc123==''"]
  by simp

text \<open>
  C9. In every state the application reaches from its initial state by completed handler
  steps, \<open>isLoading\<close> and \<open>generatedImage\<close> are not both truthy.
\<close>

theorem loading_excludes_result:
  "\<not> (isLoading (app (run reader evs)) \<and> truthy_string (generatedImage (app (run reader evs))))"
  unfolding run_def by (rule foldl_step_steady) (simp add: initialState_def)

theorem loading_excludes_result_witness:
  "isLoading (app (run readAsDataURL
      [ChildPhotoUploaded \<lparr>name = ''child.png'', type = ''image/png'', content = [0x41]\<rparr>,
       AdultPhotoUploaded \<lparr>name = ''adult.jpg'', type = ''image/jpeg'', content = [0x42]\<rparr>,
       GenerateClicked]))
   \<and> generatedImage (app (run readAsDataURL
      [ChildPhotoUploaded \<lparr>name = ''child.png'', type = ''image/png'', content = [0x41]\<rparr>,
       AdultPhotoUploaded \<lparr>name = ''adult.jpg'', type = ''image/jpeg'', content = [0x42]\<rparr>,
       GenerateClicked])) = None
   \<and> isLoading (app (run readAsDataURL
      [ChildPhotoUploaded \<lparr>name = ''child.png'', type = ''image/png'', content = [0x41]\<rparr>,
       AdultPhotoUploaded \<lparr>name = ''adult.jpg'', type = ''image/jpeg'', content = [0x42]\<rparr>,
       GenerateClicked, GenerationSettled (Fulfilled ''abc123=='')])) = False
   \<and> generatedImage (app (run readAsDataURL
      [ChildPhotoUploaded \<lparr>name = ''child.png'', type = ''image/png'', content = [0x41]\<rparr>,
       AdultPhotoUploaded \<lparr>name = ''adult.jpg'', type = ''image/jpeg'', content = [0x42]\<rparr>,
       GenerateClicked, GenerationSettled (Fulfilled ''abc123=='')]))
     = Some ''data:image/jpeg;base64,abc123==''"
  using loading_excludes_result
          [of readAsDataURL
              "[ChildPhotoUploaded \<lparr>name = ''child.png'', type = ''image/png'', content = [0x41]\<rparr>,
                AdultPhotoUploaded \<lparr>name = ''adult.jpg'', type = ''image/jpeg'', content = [0x42]\<rparr>,
                GenerateClicked]"]
  by (simp add: run_def step_def initialState_def handleChildPhotoUpload_def
      handleAdultPhotoUpload_def fileToPhotoState_def readAsDataURL_def
      rendersUploadScreen_def isGenerateDisabled_def truthy_string_def truthy_object_def
      handleGenerate_begin_def handleGenerate_settle_def)

section \<open>Properties of capture and encoding\<close>

text \<open>
  C6. For every submitted file whose declared type does not start with \<open>"image/"\<close>,
  \<open>handleFileChange\<close> shows the alert and nothing else: the uploader's preview and file
  name and the application state are unchanged, and \<open>onImageUpload\<close> is not called.
\<close>

theorem non_image_rejected:
  assumes "\<not> startsWith (type file) ''image/''"
  shows "handleFileChange (Some file) u = (u, [Alert ''Please select a valid image file.''])
         \<and> submitFile reader sl (Some file) (u, s, alerts)
             = (u, s, alerts @ [''Please select a valid image file.''])"
  using assms by (simp add: handleFileChange_def submitFile_def perform_def)

theorem non_image_rejected_witness:
  "\<not> startsWith ''text/plain'' ''image/''
   \<and> submitFile readAsDataURL ChildSlot
        (Some \<lparr>name = ''notes.txt'', type = ''text/plain'', content = [0x68, 0x69]\<rparr>)
        (\<lparr>imagePreview = None, fileName = ''''\<rparr>, initialState, [])
      = (\<lparr>imagePreview = None, fileName = ''''\<rparr>, initialState,
         [''Please select a valid image file.''])"
  using non_image_rejected
          [of "\<lparr>name = ''notes.txt'', type = ''text/plain'', content = [0x68, 0x69]\<rparr>"
              "\<lparr>imagePreview = None, fileName = ''''\<rparr>" readAsDataURL ChildSlot
              initialState "[]"]
  by (simp add: startsWith_def)

text \<open>
  C7, as amended. For every file that the uploader hands to \<open>onImageUpload\<close>, whose
  declared type holds no comma and whose read succeeds, the photo stored in the slot has
  a \<open>base64Data\<close> that does not start with \<open>"data:"\<close>, and a \<open>mimeType\<close> equal to the
  file's declared type, which starts with \<open>"image/"\<close>. The type need not be one of PNG,
  JPEG and WEBP.
\<close>

theorem stored_photo_shape:
  assumes "OnImageUpload file \<in> set (snd (handleFileChange files0 u))"
    and "reader file = Some (dataURL file)"
    and "CHR '','' \<notin> set (type file)"
  shows "\<exists>p. childPhoto (fst (snd (submitFile reader ChildSlot files0 (u, s, alerts))))
               = Some p
             \<and> adultPhoto (fst (snd (submitFile reader AdultSlot files0 (u, s, alerts))))
               = Some p
             \<and> (\<exists>d. base64Data p = Some d \<and> \<not> startsWith d ''data:'')
             \<and> mimeType p = type file
             \<and> startsWith (mimeType p) ''image/''"
proof -
  have sub: "files0 = Some file" and img: "startsWith (type file) ''image/''"
    using callback_only_for_images[OF assms(1)] by simp_all
  have enc: "fileToPhotoState reader file
      = Fulfilled \<lparr>base64Data = Some (base64_encode (content file)), mimeType = type file\<rparr>"
    using assms(2,3) by (rule fileToPhotoState_dataURL)
  have "\<not> startsWith (base64_encode (content file)) ''data:''"
    by (rule no_colon_no_prefix) (rule base64_encode_no_colon)
  then show ?thesis
    using sub img enc
    by (simp add: submitFile_def handleFileChange_def perform_def handleChildPhotoUpload_def
        handleAdultPhotoUpload_def)
qed

theorem stored_photo_shape_witness:
  "OnImageUpload \<lparr>name = ''child.png'', type = ''image/png'', content = [0x4d, 0x61, 0x6e]\<rparr>
     \<in> set (snd (handleFileChange
          (Some \<lparr>name = ''child.png'', type = ''image/png'', content = [0x4d, 0x61, 0x6e]\<rparr>)
          \<lparr>imagePreview = None, fileName = ''''\<rparr>))
   \<and> childPhoto (fst (snd (submitFile readAsDataURL ChildSlot
      (Some \<lparr>name = ''child.png'', type = ''image/png'', content = [0x4d, 0x61, 0x6e]\<rparr>)
      (\<lparr>imagePreview = None, fileName = ''''\<rparr>, initialState, []))))
   = Some \<lparr>base64Data = Some ''TWFu'', mimeType = ''image/png''\<rparr>
   \<and> startsWith ''image/png'' ''image/''
   \<and> startsWith ''TWFu'' ''data:'' = False"
proof -
  have a: "OnImageUpload \<lparr>name = ''child.png'', type = ''image/png'', content = [0x4d, 0x61, 0x6e]\<rparr>
     \<in> set (snd (handleFileChange
          (Some \<lparr>name = ''child.png'', type = ''image/png'', content = [0x4d, 0x61, 0x6e]\<rparr>)
          \<lparr>imagePreview = None, fileName = ''''\<rparr>))"
    by (simp add: handleFileChange_def startsWith_def)
  have r: "readAsDataURL \<lparr>name = ''child.png'', type = ''image/png'', content = [0x4d, 0x61, 0x6e]\<rparr>
             = Some (dataURL \<lparr>name = ''child.png'', type = ''image/png'', content = [0x4d, 0x61, 0x6e]\<rparr>)"
    by (simp add: readAsDataURL_def)
  have c: "CHR '','' \<notin> set (type \<lparr>name = ''child.png'', type = ''image/png'', content = [0x4d, 0x61, 0x6e]\<rparr>)"
    by simp
  from stored_photo_shape
         [of "\<lparr>name = ''child.png'', type = ''image/png'', content = [0x4d, 0x61, 0x6e]\<rparr>"
             "Some \<lparr>name = ''child.png'', type = ''image/png'', content = [0x4d, 0x61, 0x6e]\<rparr>"
             "\<lparr>imagePreview = None, fileName = ''''\<rparr>" readAsDataURL initialState "[]",
          OF a r c]
       png_submitted a
  show ?thesis by auto
qed

text \<open>
  C7, as stated, fails: a file of type \<open>image/gif\<close> passes the uploader's check and is
  stored with that type, which is not among PNG, JPEG and WEBP.
\<close>

theorem accepted_set_counterexample:
  "childPhoto (fst (snd (submitFile readAsDataURL ChildSlot
      (Some \<lparr>name = ''anim.gif'', type = ''image/gif'', content = [0x47, 0x49, 0x46]\<rparr>)
      (\<lparr>imagePreview = None, fileName = ''''\<rparr>, initialState, []))))
   = Some \<lparr>base64Data = Some ''R0lG'', mimeType = ''image/gif''\<rparr>
   \<and> ''image/gif'' \<notin> set acceptedTypes"
  by (simp add: gif_submitted acceptedTypes_def)

text \<open>
  C8. For every file whose declared type holds no comma (as every media type does: a
  comma is not a token character) and whose read succeeds, \<open>fileToPhotoState\<close> fulfils
  with a photo whose \<open>base64Data\<close> does not start with \<open>"data:"\<close> and base64-decodes to
  the file's bytes.
\<close>

theorem encode_roundtrip:
  assumes "reader file = Some (dataURL file)" and "CHR '','' \<notin> set (type file)"
  shows "\<exists>d. fileToPhotoState reader file = Fulfilled \<lparr>base64Data = Some d, mimeType = type file\<rparr>
             \<and> \<not> startsWith d ''data:''
             \<and> base64_decode d = Some (content file)"
  using fileToPhotoState_dataURL[of reader "file", OF assms] no_colon_no_prefix[OF base64_encode_no_colon]
    base64_roundtrip by blast

theorem encode_roundtrip_witness:
  "fileToPhotoState readAsDataURL
      \<lparr>name = ''child.png'', type = ''image/png'', content = [0x4d, 0x61, 0x6e]\<rparr>
     = Fulfilled \<lparr>base64Data = Some ''TWFu'', mimeType = ''image/png''\<rparr>
   \<and> startsWith ''TWFu'' ''data:'' = False
   \<and> base64_decode ''TWFu'' = Some [0x4d, 0x61, 0x6e]"
proof -
  have r: "readAsDataURL \<lparr>name = ''child.png'', type = ''image/png'', content = [0x4d, 0x61, 0x6e]\<rparr>
             = Some (dataURL \<lparr>name = ''child.png'', type = ''image/png'', content = [0x4d, 0x61, 0x6e]\<rparr>)"
    by (simp add: readAsDataURL_def)
  have c: "CHR '','' \<notin> set (type \<lparr>name = ''child.png'', type = ''image/png'', content = [0x4d, 0x61, 0x6e]\<rparr>)"
    by simp
  from encode_roundtrip
         [of readAsDataURL
             "\<lparr>name = ''child.png'', type = ''image/png'', content = [0x4d, 0x61, 0x6e]\<rparr>",
          OF r c]
       png_encoded
  show ?thesis by auto
qed

end
